theory Spec2Isabelle
  imports Main "HOL-Library.Sublist"
begin

section \<open>JavaScript values of a parsed row\<close>

text \<open>
  The rows handed to \<open>processCsvData\<close> come from \<open>Papa.parse\<close> called with
  \<open>header: true, dynamicTyping: true\<close> (App.js, lines 175-178): besides a string, a
  cell can be a number or a boolean, the empty cell is \<open>null\<close>, and reading a column
  the row does not have gives \<open>undefined\<close>. Numbers are modelled as integers, strings
  as lists of 8-bit code units.
\<close>

datatype jsvalue = JUndefined | JNull | JBool bool | JNum int | JStr string

datatype js_error =
    Error string
  | TypeError string
  | NoSuchFieldError string
  | UnexpectedFieldTypeError string

text \<open>\<open>err.message\<close>. The wording of the two pdf-lib errors is the library's; the
  model only needs that they have one.\<close>

fun message :: "js_error \<Rightarrow> string" where
  "message (Error m) = m"
| "message (TypeError m) = m"
| "message (NoSuchFieldError n) = ''PDFDocument has no form field with the name '' @ n"
| "message (UnexpectedFieldTypeError n) = ''Unexpected type of field '' @ n"

text \<open>A row is a JavaScript object: its entries in the order \<open>Object.keys\<close> lists them.
  The keys of an object are distinct; the theorems that need it assume
  \<open>distinct (map fst rowData)\<close>.\<close>

type_synonym row = "(string \<times> jsvalue) list"

definition keys :: "row \<Rightarrow> string list" where
  "keys rowData = map fst rowData"

text \<open>\<open>rowData[key]\<close>\<close>

definition getProp :: "row \<Rightarrow> string \<Rightarrow> jsvalue" where
  "getProp rowData key = (case map_of rowData key of None \<Rightarrow> JUndefined | Some v \<Rightarrow> v)"

text \<open>Truthiness, as \<open>||\<close>, \<open>&&\<close>, \<open>Boolean\<close> and \<open>filter\<close> read a value.\<close>

fun truthy :: "jsvalue \<Rightarrow> bool" where
  "truthy JUndefined = False"
| "truthy JNull = False"
| "truthy (JBool b) = b"
| "truthy (JNum n) = (n \<noteq> 0)"
| "truthy (JStr s) = (s \<noteq> [])"

text \<open>The decimal digits of a natural number.\<close>

definition digitChar :: "nat \<Rightarrow> char" where
  "digitChar d = ''0123456789'' ! d"

fun digitsOf :: "nat \<Rightarrow> string" where
  "digitsOf n =
     (if n < 10 then [digitChar n]
      else digitsOf (n div 10) @ [digitChar (n mod 10)])"

declare digitsOf.simps [simp del]

text \<open>\<open>String(value)\<close>\<close>

fun toString :: "jsvalue \<Rightarrow> string" where
  "toString JUndefined = ''undefined''"
| "toString JNull = ''null''"
| "toString (JBool b) = (if b then ''true'' else ''false'')"
| "toString (JNum n) = (if n < 0 then ''-'' @ digitsOf (nat (- n)) else digitsOf (nat n))"
| "toString (JStr s) = s"

text \<open>\<open>key.includes(sub)\<close>: does \<open>sub\<close> occur in \<open>key\<close> as a substring.\<close>

fun includesStr :: "string \<Rightarrow> string \<Rightarrow> bool" where
  "includesStr [] sub = (sub = [])"
| "includesStr (c # cs) sub = (prefix sub (c # cs) \<or> includesStr cs sub)"

text \<open>White space of \<open>String.prototype.trim\<close> among the 8-bit code units: tab, line
  feed, vertical tab, form feed, carriage return, space and no-break space.\<close>

definition isWhitespace :: "char \<Rightarrow> bool" where
  "isWhitespace c = ((of_char c :: nat) \<in> {9, 10, 11, 12, 13, 32, 160})"

definition trim :: "string \<Rightarrow> string" where
  "trim s = rev (dropWhile isWhitespace (rev (dropWhile isWhitespace s)))"

text \<open>\<open>value.trim()\<close>: only a string has the method; on a number or a boolean the
  call is a TypeError.\<close>

fun callTrim :: "jsvalue \<Rightarrow> js_error + jsvalue" where
  "callTrim (JStr s) = Inr (JStr (trim s))"
| "callTrim v = Inl (TypeError ''rowData[key].trim is not a function'')"

text \<open>\<open>array.filter(p)\<close> for a callback that may throw: the first exception leaves the
  loop.\<close>

fun filterE :: "('a \<Rightarrow> js_error + bool) \<Rightarrow> 'a list \<Rightarrow> js_error + 'a list" where
  "filterE p [] = Inr []"
| "filterE p (x # xs) =
     (case p x of
        Inl e \<Rightarrow> Inl e
      | Inr b \<Rightarrow>
          (case filterE p xs of
             Inl e \<Rightarrow> Inl e
           | Inr ys \<Rightarrow> Inr (if b then x # ys else ys)))"

text \<open>\<open>array.join(sep)\<close>: \<open>null\<close> and \<open>undefined\<close> elements are written as the empty
  string, any other element as \<open>String(element)\<close>.\<close>

fun joinElem :: "jsvalue \<Rightarrow> string" where
  "joinElem JUndefined = []"
| "joinElem JNull = []"
| "joinElem v = toString v"

fun joinStr :: "string \<Rightarrow> string list \<Rightarrow> string" where
  "joinStr sep [] = []"
| "joinStr sep [x] = x"
| "joinStr sep (x # y # ys) = x @ sep @ joinStr sep (y # ys)"

definition join :: "string \<Rightarrow> jsvalue list \<Rightarrow> string" where
  "join sep xs = joinStr sep (map joinElem xs)"

section \<open>fillPdfForm: the values written into the form\<close>

text \<open>Lines 84-90.\<close>

definition fieldMappings :: "(string \<times> string) list" where
  "fieldMappings =
     [(''Client'', ''Client''),
      (''Prosystems #'', ''ProSystem's #''),
      (''Tax Year'', ''Tax Year''),
      (''Return Type'', ''Return Type''),
      (''File Directory'', ''File Directory'')]"

text \<open>Lines 94 and 98: \<open>String(rowData[csvField] || '')\<close>.\<close>

definition orEmpty :: "jsvalue \<Rightarrow> jsvalue" where
  "orEmpty v = (if truthy v then v else JStr [])"

definition mappedText :: "row \<Rightarrow> string \<Rightarrow> string" where
  "mappedText rowData csvField = toString (orEmpty (getProp rowData csvField))"

text \<open>Line 108, the callback of the filter:
  \<open>key.includes('States') && rowData[key] && rowData[key].trim()\<close>, read as a boolean.\<close>

definition isStateField :: "row \<Rightarrow> string \<Rightarrow> js_error + bool" where
  "isStateField rowData key =
     (if \<not> includesStr key ''States'' then Inr False
      else if \<not> truthy (getProp rowData key) then Inr False
      else (case callTrim (getProp rowData key) of
              Inl e \<Rightarrow> Inl e
            | Inr t \<Rightarrow> Inr (truthy t)))"

text \<open>Lines 107-113.\<close>

definition statesText :: "row \<Rightarrow> js_error + string" where
  "statesText rowData =
     (case filterE (isStateField rowData) (keys rowData) of
        Inl e \<Rightarrow> Inl e
      | Inr stateFields \<Rightarrow>
          (let stateValues = filter truthy (map (getProp rowData) stateFields)
           in Inr (join '', '' stateValues)))"

section \<open>The document objects of pdf-lib\<close>

text \<open>
  A decoded document, as far as App.js looks at it: its pages, in order, and the named
  fields of its form. \<open>form.getTextField(name)\<close> throws when the form has no field of
  that name or when the field is not a text field; \<open>field.setText(text)\<close> stores the
  text in the field.
\<close>

datatype field = TextField string | OtherField

record 'p pdfdoc =
  pages :: "'p list"
  formFields :: "(string \<times> field) list"

definition getTextField :: "'p pdfdoc \<Rightarrow> string \<Rightarrow> js_error + string" where
  "getTextField d name =
     (case map_of (formFields d) name of
        None \<Rightarrow> Inl (NoSuchFieldError name)
      | Some (TextField t) \<Rightarrow> Inr name
      | Some OtherField \<Rightarrow> Inl (UnexpectedFieldTypeError name))"

definition setText :: "'p pdfdoc \<Rightarrow> string \<Rightarrow> string \<Rightarrow> 'p pdfdoc" where
  "setText d name text =
     d\<lparr>formFields := map (\<lambda>(n, f). if n = name then (n, TextField text) else (n, f)) (formFields d)\<rparr>"

text \<open>The text a text field holds (what \<open>getText\<close> would read).\<close>

definition fieldText :: "'p pdfdoc \<Rightarrow> string \<Rightarrow> string option" where
  "fieldText d name =
     (case map_of (formFields d) name of Some (TextField t) \<Rightarrow> Some t | _ \<Rightarrow> None)"

text \<open>\<open>PDFDocument.create()\<close>, \<open>doc.getPageIndices()\<close>, \<open>doc.copyPages(src, indices)\<close>
  and \<open>doc.addPage(page)\<close>.\<close>

definition createDoc :: "'p pdfdoc" where
  "createDoc = \<lparr>pages = [], formFields = []\<rparr>"

definition getPageIndices :: "'p pdfdoc \<Rightarrow> nat list" where
  "getPageIndices d = [0 ..< length (pages d)]"

definition copyPages :: "'p pdfdoc \<Rightarrow> nat list \<Rightarrow> 'p list" where
  "copyPages src indices = map (\<lambda>i. pages src ! i) indices"

definition addPage :: "'p pdfdoc \<Rightarrow> 'p \<Rightarrow> 'p pdfdoc" where
  "addPage d page = d\<lparr>pages := pages d @ [page]\<rparr>"

text \<open>
  Decoding, flattening and serialising are pdf-lib's own and may each throw; they are
  parameters of the model, over any type \<open>'b\<close> of byte buffers.
\<close>

record ('b, 'p) pdf_lib =
  load :: "'b \<Rightarrow> js_error + 'p pdfdoc"
  flatten :: "'p pdfdoc \<Rightarrow> js_error + 'p pdfdoc"
  save :: "'p pdfdoc \<Rightarrow> js_error + 'b"

section \<open>fillPdfForm\<close>

text \<open>The console: \<open>console.warn(text)\<close> and \<open>console.error(label, err)\<close>.\<close>

datatype log = Warn string | LogError string js_error

text \<open>Lines 95-102 and 115-122: one guarded \<open>getTextField\<close>/\<open>setText\<close>. The result is
  the document and what was written to the console.\<close>

definition fillField ::
  "'p pdfdoc \<Rightarrow> string \<Rightarrow> string \<Rightarrow> (js_error \<Rightarrow> string) \<Rightarrow> 'p pdfdoc \<times> log list" where
  "fillField d pdfField text warning =
     (case getTextField d pdfField of
        Inl fieldErr \<Rightarrow> (d, [Warn (warning fieldErr)])
      | Inr formField \<Rightarrow> (setText d formField text, []))"

definition mappedWarning :: "string \<Rightarrow> js_error \<Rightarrow> string" where
  "mappedWarning pdfField fieldErr =
     ''Could not fill field '' @ [CHR 0x22] @ pdfField @ [CHR 0x22] @ '': '' @ message fieldErr"

definition statesWarning :: "js_error \<Rightarrow> string" where
  "statesWarning stateErr = ''Could not fill States field: '' @ message stateErr"

text \<open>Lines 93-103: the \<open>forEach\<close> over the entries of \<open>fieldMappings\<close>.\<close>

fun fillMappedFields ::
  "row \<Rightarrow> (string \<times> string) list \<Rightarrow> 'p pdfdoc \<Rightarrow> 'p pdfdoc \<times> log list" where
  "fillMappedFields rowData [] d = (d, [])"
| "fillMappedFields rowData ((csvField, pdfField) # rest) d =
     (let (d1, w1) = fillField d pdfField (mappedText rowData csvField) (mappedWarning pdfField);
          (d2, w2) = fillMappedFields rowData rest d1
      in (d2, w1 @ w2))"

text \<open>Lines 82-126: the outer \<open>try\<close>. An exception of the block is logged and thrown
  again as \<open>Error('Error filling PDF form: ' + err.message)\<close>.\<close>

definition fillForm :: "'p pdfdoc \<Rightarrow> row \<Rightarrow> log list \<times> (js_error + 'p pdfdoc)" where
  "fillForm pdfDoc rowData =
     (let (d1, w1) = fillMappedFields rowData fieldMappings pdfDoc
      in case statesText rowData of
           Inl err \<Rightarrow>
             (w1 @ [LogError ''Error filling PDF form:'' err],
              Inl (Error (''Error filling PDF form: '' @ message err)))
         | Inr text \<Rightarrow>
             (let (d2, w2) = fillField d1 ''States'' text statesWarning
              in (w1 @ w2, Inr d2)))"

text \<open>Lines 77-133.\<close>

definition fillPdfForm :: "('b, 'p) pdf_lib \<Rightarrow> 'b \<Rightarrow> row \<Rightarrow> log list \<times> (js_error + 'b)" where
  "fillPdfForm lib templateBytes rowData =
     (case load lib templateBytes of
        Inl e \<Rightarrow> ([], Inl e)
      | Inr pdfDoc \<Rightarrow>
          (case fillForm pdfDoc rowData of
             (w, Inl e) \<Rightarrow> (w, Inl e)
           | (w, Inr filled) \<Rightarrow>
               (case flatten lib filled of
                  Inl e \<Rightarrow> (w, Inl e)
                | Inr flat \<Rightarrow> (w, save lib flat))))"

section \<open>processCsvData\<close>

text \<open>The state of the component (lines 8-12) and the console.\<close>

record 'b app =
  processing :: bool
  error :: "string option"
  completedPdf :: "'b option"
  templatePdf :: "'b option"
  processedCount :: nat
  console :: "log list"

text \<open>Lines 49-63: the loop over the rows. An exception leaves the loop with the state
  reached so far.\<close>

fun processRows ::
  "('b, 'p) pdf_lib \<Rightarrow> 'b \<Rightarrow> 'p pdfdoc \<Rightarrow> 'b app \<Rightarrow> row list \<Rightarrow> 'b app \<times> (js_error + 'p pdfdoc)" where
  "processRows lib tpl mergedPdf s [] = (s, Inr mergedPdf)"
| "processRows lib tpl mergedPdf s (rowData # rest) =
     (case fillPdfForm lib tpl rowData of
        (w, Inl e) \<Rightarrow> (s\<lparr>console := console s @ w\<rparr>, Inl e)
      | (w, Inr pdfBytes) \<Rightarrow>
          (let s1 = s\<lparr>console := console s @ w\<rparr>
           in case load lib pdfBytes of
                Inl e \<Rightarrow> (s1, Inl e)
              | Inr filledPdf \<Rightarrow>
                  (let copiedPages = copyPages filledPdf (getPageIndices filledPdf);
                       merged' = foldl addPage mergedPdf copiedPages;
                       s2 = s1\<lparr>processedCount := processedCount s1 + 1\<rparr>
                   in processRows lib tpl merged' s2 rest)))"

text \<open>Lines 68-73: \<open>catch\<close> and \<open>finally\<close>.\<close>

definition catchError :: "'b app \<Rightarrow> js_error \<Rightarrow> 'b app" where
  "catchError s err =
     s\<lparr>console := console s @ [LogError ''Error processing CSV data:'' err],
       error := Some (''Failed to process CSV data: '' @ message err),
       processing := False\<rparr>"

text \<open>Lines 34-74.\<close>

definition processCsvData :: "('b, 'p) pdf_lib \<Rightarrow> 'b app \<Rightarrow> row list \<Rightarrow> 'b app" where
  "processCsvData lib s csvData =
     (let s0 = s\<lparr>processing := True, error := None, completedPdf := None, processedCount := 0\<rparr>
      in case templatePdf s of
           None \<Rightarrow> catchError s0 (Error ''PDF template not loaded. Please reload the page.'')
         | Some tpl \<Rightarrow>
             (case processRows lib tpl createDoc s0 csvData of
                (s1, Inl err) \<Rightarrow> catchError s1 err
              | (s1, Inr mergedPdf) \<Rightarrow>
                  (case save lib mergedPdf of
                     Inl err \<Rightarrow> catchError s1 err
                   | Inr mergedPdfBytes \<Rightarrow>
                       s1\<lparr>completedPdf := Some mergedPdfBytes, processing := False\<rparr>)))"

section \<open>onDrop\<close>

text \<open>
  A dropped file: its name, its MIME type and what the \<open>FileReader\<close> delivers
  (\<open>None\<close> when \<open>reader.onerror\<close> fires). \<open>Papa.parse\<close> is a parameter: it either calls
  \<open>complete\<close> with the rows and the list of parse errors, or calls \<open>error\<close>.
\<close>

record dropped_file =
  fileName :: string
  fileType :: string
  fileText :: "string option"

record parse_error =
  errorMessage :: string

record parse_results =
  parsedData :: "row list"
  parseErrors :: "parse_error list"

datatype parse_outcome = Complete parse_results | ParseFailed js_error

definition setError :: "'b app \<Rightarrow> string \<Rightarrow> 'b app" where
  "setError s msg = s\<lparr>error := Some msg\<rparr>"

text \<open>Lines 179-186, the \<open>complete\<close> callback.\<close>

definition onComplete :: "('b, 'p) pdf_lib \<Rightarrow> 'b app \<Rightarrow> parse_results \<Rightarrow> 'b app" where
  "onComplete lib s results =
     (if length (parseErrors results) > 0
      then setError s (''Error parsing CSV: '' @ errorMessage (hd (parseErrors results)))
      else processCsvData lib s (parsedData results))"

text \<open>Lines 152-202.\<close>

definition onDrop ::
  "('b, 'p) pdf_lib \<Rightarrow> (string \<Rightarrow> parse_outcome) \<Rightarrow> 'b app \<Rightarrow> dropped_file list \<Rightarrow> 'b app" where
  "onDrop lib parse s acceptedFiles =
     (let s0 = s\<lparr>error := None\<rparr>
      in if length acceptedFiles \<noteq> 1 then setError s0 ''Please upload exactly one CSV file''
         else
           (let file = hd acceptedFiles
            in if fileType file \<noteq> ''text/csv'' \<and> \<not> suffix ''.csv'' (fileName file)
               then setError s0 ''Please upload a CSV file''
               else
                 (case fileText file of
                    None \<Rightarrow> setError s0 ''Failed to read the file''
                  | Some csvText \<Rightarrow>
                      (case parse csvText of
                         Complete results \<Rightarrow> onComplete lib s0 results
                       | ParseFailed err \<Rightarrow>
                           setError s0 (''Error parsing CSV: '' @ message err)))))"

section \<open>The States rule in the words of the specification\<close>

text \<open>
  Following the specification, not the code: of the columns whose name contains
  \<open>States\<close>, in the order of the row, the text values that are not empty after
  trimming. It is compared with \<open>statesText\<close> below.
\<close>

fun specStates :: "row \<Rightarrow> string list" where
  "specStates [] = []"
| "specStates ((k, JStr s) # rest) =
     (if includesStr k ''States'' \<and> trim s \<noteq> [] then s # specStates rest else specStates rest)"
| "specStates ((k, v) # rest) = specStates rest"



section \<open>The pages a row contributes\<close>

text \<open>
  Lines 51-57 for one row: the pages of the document decoded from the bytes that
  \<open>fillPdfForm\<close> returns, or the exception that ends the batch.
\<close>

definition rowPages :: "('b, 'p) pdf_lib \<Rightarrow> 'b \<Rightarrow> row \<Rightarrow> js_error + 'p list" where
  "rowPages lib tpl rowData =
     (case snd (fillPdfForm lib tpl rowData) of
        Inl e \<Rightarrow> Inl e
      | Inr pdfBytes \<Rightarrow>
          (case load lib pdfBytes of
             Inl e \<Rightarrow> Inl e
           | Inr filledPdf \<Rightarrow> Inr (pages filledPdf)))"

section \<open>A concrete library, template and state\<close>

text \<open>
  For evaluating the model: a library whose byte buffers are the documents themselves,
  whose \<open>flatten\<close> drops the form fields and keeps the pages, a one-page template with
  the text fields \<open>Client\<close> and \<open>States\<close>, and the state after that template is loaded.
\<close>

definition exampleLib :: "(nat pdfdoc, nat) pdf_lib" where
  "exampleLib = \<lparr>load = Inr, flatten = (\<lambda>d. Inr (d\<lparr>formFields := []\<rparr>)), save = Inr\<rparr>"

definition exampleTemplate :: "nat pdfdoc" where
  "exampleTemplate = \<lparr>pages = [7], formFields = [(''Client'', TextField []), (''States'', TextField [])]\<rparr>"

definition exampleState :: "nat pdfdoc app" where
  "exampleState = \<lparr>processing = False, error = None, completedPdf = None,
                    templatePdf = Some exampleTemplate, processedCount = 0, console = []\<rparr>"

section \<open>Properties of the States rule\<close>

lemma includesStr_sublist: "includesStr s sub \<longleftrightarrow> sublist sub s"
  by (induction s) (auto simp: sublist_Cons_right)

lemma trim_Nil: "trim [] = []"
  by (simp add: trim_def)

lemma trim_empty_iff: "trim s = [] \<longleftrightarrow> (\<forall>c \<in> set s. isWhitespace c)"
proof -
  have "trim s = [] \<longleftrightarrow> (\<forall>c \<in> set (dropWhile isWhitespace s). isWhitespace c)"
    by (simp add: trim_def dropWhile_eq_Nil_conv)
  also have "\<dots> \<longleftrightarrow> dropWhile isWhitespace s = []"
    by (metis hd_dropWhile list.set_sel(1) empty_iff list.set(1))
  also have "\<dots> \<longleftrightarrow> (\<forall>c \<in> set s. isWhitespace c)"
    by (simp add: dropWhile_eq_Nil_conv)
  finally show ?thesis .
qed

lemma getProp_entry: "distinct (map fst rowData) \<Longrightarrow> (k, v) \<in> set rowData \<Longrightarrow> getProp rowData k = v"
  by (simp add: getProp_def)

lemma specStates_nonempty: "s \<in> set (specStates xs) \<Longrightarrow> s \<noteq> []"
  by (induction xs rule: specStates.induct) (auto simp: trim_Nil split: if_splits)

lemma filterE_states:
  assumes "distinct (map fst rowData)"
  shows "set xs \<subseteq> set rowData \<Longrightarrow> filterE (isStateField rowData) (map fst xs) = Inr ks \<Longrightarrow>
         map (getProp rowData) ks = map JStr (specStates xs)"
proof (induction xs arbitrary: ks)
  case Nil
  then show ?case by simp
next
  case (Cons x xs)
  obtain k v where x: "x = (k, v)" by (cases x)
  with Cons.prems have v: "getProp rowData k = v"
    using assms by (simp add: getProp_entry)
  from Cons.prems x obtain b ys where b: "isStateField rowData k = Inr b"
    and ys: "filterE (isStateField rowData) (map fst xs) = Inr ys"
    and ks: "ks = (if b then k # ys else ys)"
    by (auto split: sum.splits)
  from Cons.IH[OF _ ys] Cons.prems have IH: "map (getProp rowData) ys = map JStr (specStates xs)"
    by simp
  show ?case
    using b v IH unfolding x ks
    by (cases v) (auto simp: isStateField_def trim_Nil split: if_splits)
qed

lemma join_strings: "join sep (map JStr xs) = joinStr sep xs"
  by (simp add: join_def comp_def)

lemma statesText_value:
  assumes "distinct (map fst rowData)" and "statesText rowData = Inr t"
  shows "t = joinStr '', '' (specStates rowData)"
proof -
  from assms(2) obtain ks where ks: "filterE (isStateField rowData) (map fst rowData) = Inr ks"
    and t: "t = join '', '' (filter truthy (map (getProp rowData) ks))"
    by (auto simp: statesText_def keys_def split: sum.splits)
  have "map (getProp rowData) ks = map JStr (specStates rowData)"
    using filterE_states[OF assms(1) _ ks] by simp
  moreover have "filter truthy (map JStr (specStates rowData)) = map JStr (specStates rowData)"
    by (auto simp: filter_id_conv dest: specStates_nonempty)
  ultimately show ?thesis using t by (simp add: join_strings)
qed



section \<open>Properties of the form fields\<close>

lemma map_of_setText:
  "map_of (map (\<lambda>(n, f). if n = name then (n, TextField text) else (n, f)) xs) q =
     (if q = name then map_option (\<lambda>f. TextField text) (map_of xs q) else map_of xs q)"
  by (induction xs) auto

lemma getTextField_setText:
  "getTextField d name = Inr r \<Longrightarrow> getTextField (setText d name text) q = getTextField d q"
  by (auto simp: getTextField_def setText_def map_of_setText split: option.splits field.splits)

lemma fieldText_setText:
  "getTextField d name = Inr r \<Longrightarrow>
   fieldText (setText d name text) q = (if q = name then Some text else fieldText d q)"
  by (auto simp: getTextField_def fieldText_def setText_def map_of_setText split: option.splits field.splits)

lemma getTextField_Inr: "getTextField d name = Inr r \<Longrightarrow> r = name"
  by (auto simp: getTextField_def split: option.splits field.splits)

lemma fillField_located:
  "getTextField d p = Inr r \<Longrightarrow> fillField d p text w = (setText d p text, [])"
  by (frule getTextField_Inr) (simp add: fillField_def)

lemma fillField_unlocated:
  "getTextField d p = Inl e \<Longrightarrow> fillField d p text w = (d, [Warn (w e)])"
  by (simp add: fillField_def)

lemma getTextField_fillField:
  "getTextField (fst (fillField d p text w)) q = getTextField d q"
  by (cases "getTextField d p")
     (simp_all add: fillField_unlocated fillField_located getTextField_setText)

lemma fieldText_fillField:
  "fieldText (fst (fillField d p text w)) q =
     (if q = p \<and> getTextField d p = Inr p then Some text else fieldText d q)"
proof (cases "getTextField d p")
  case (Inl e)
  then show ?thesis by (simp add: fillField_unlocated)
next
  case (Inr r)
  then show ?thesis
    by (frule_tac getTextField_Inr) (simp add: fillField_located fieldText_setText)
qed

lemma fillMappedFields_Cons:
  "fillMappedFields rowData ((c, p) # rest) d =
     (fst (fillMappedFields rowData rest (fst (fillField d p (mappedText rowData c) (mappedWarning p)))),
      snd (fillField d p (mappedText rowData c) (mappedWarning p)) @
      snd (fillMappedFields rowData rest (fst (fillField d p (mappedText rowData c) (mappedWarning p)))))"
  by (simp add: split_beta)


lemma fieldText_fillMappedFields_other:
  "q \<notin> snd ` set ms \<Longrightarrow> fieldText (fst (fillMappedFields rowData ms d)) q = fieldText d q"
proof (induction ms arbitrary: d)
  case Nil
  then show ?case by simp
next
  case (Cons m ms)
  obtain c p where "m = (c, p)" by (cases m)
  with Cons show ?case
    by (simp add: fillMappedFields_Cons fieldText_fillField del: fillMappedFields.simps)
qed

lemma fieldText_fillMappedFields:
  "distinct (map snd ms) \<Longrightarrow> (c, p) \<in> set ms \<Longrightarrow> getTextField d p = Inr p \<Longrightarrow>
   fieldText (fst (fillMappedFields rowData ms d)) p = Some (mappedText rowData c)"
proof (induction ms arbitrary: d)
  case Nil
  then show ?case by simp
next
  case (Cons m ms)
  obtain c' p' where m: "m = (c', p')" by (cases m)
  show ?case
  proof (cases "(c, p) = (c', p')")
    case True
    with Cons.prems m show ?thesis
      by (simp add: fillMappedFields_Cons fieldText_fillMappedFields_other fieldText_fillField
               del: fillMappedFields.simps)
  next
    case False
    with Cons.prems m have "(c, p) \<in> set ms" "distinct (map snd ms)" by auto
    moreover have "getTextField (fst (fillField d p' (mappedText rowData c') (mappedWarning p'))) p = Inr p"
      using Cons.prems(3) by (simp add: getTextField_fillField)
    ultimately show ?thesis
      using Cons.IH m by (simp add: fillMappedFields_Cons del: fillMappedFields.simps)
  qed
qed



lemma distinct_pdfFields: "distinct (map snd fieldMappings)"
  by (simp add: fieldMappings_def)

lemma States_not_mapped: "''States'' \<notin> snd ` set fieldMappings"
  by (simp add: fieldMappings_def)

section \<open>Properties of fillForm\<close>

lemma fillForm_ok:
  assumes "statesText rowData = Inr t"
  shows "fillForm d rowData =
           (snd (fillMappedFields rowData fieldMappings d) @
              snd (fillField (fst (fillMappedFields rowData fieldMappings d)) ''States'' t statesWarning),
            Inr (fst (fillField (fst (fillMappedFields rowData fieldMappings d)) ''States'' t statesWarning)))"
  using assms by (simp add: fillForm_def split_beta)

lemma fillForm_throws:
  assumes "statesText rowData = Inl err"
  shows "fillForm d rowData =
           (snd (fillMappedFields rowData fieldMappings d) @ [LogError ''Error filling PDF form:'' err],
            Inl (Error (''Error filling PDF form: '' @ message err)))"
  using assms by (simp add: fillForm_def split_beta)


lemma fillForm_mapped:
  assumes "statesText rowData = Inr t" and "(c, p) \<in> set fieldMappings"
    and "getTextField d p = Inr p"
  shows "\<exists>w d'. fillForm d rowData = (w, Inr d') \<and> fieldText d' p = Some (mappedText rowData c)"
proof -
  from assms(2) have "p \<noteq> ''States''" using States_not_mapped by force
  then show ?thesis using assms
    by (simp add: fillForm_ok fieldText_fillField fieldText_fillMappedFields distinct_pdfFields)
qed

section \<open>The values assigned to the fields\<close>

lemma specStates_member:
  "(k, JStr s) \<in> set xs \<Longrightarrow> includesStr k ''States'' \<Longrightarrow> trim s \<noteq> [] \<Longrightarrow> s \<in> set (specStates xs)"
  by (induction xs rule: specStates.induct) auto




text \<open>
  Claim C10. Trimming only decides whether a value is kept: when \<open>statesText\<close>
  returns, every string under a \<open>States\<close> column that is not empty after trimming is
  one of the joined values as it stands in the row, with its leading and trailing
  white space.
\<close>

theorem kept_state_value_untrimmed:
  assumes "distinct (map fst rowData)" and "statesText rowData = Inr t"
    and "(k, JStr s) \<in> set rowData" and "includesStr k ''States''" and "trim s \<noteq> []"
  shows "\<exists>before after. t = joinStr '', '' (before @ s # after)"
proof -
  have "t = joinStr '', '' (specStates rowData)"
    using statesText_value[OF assms(1,2)] .
  moreover have "s \<in> set (specStates rowData)"
    using assms(3-5) by (rule specStates_member)
  ultimately show ?thesis by (metis split_list)
qed

theorem kept_state_value_untrimmed_witness:
  "distinct (map fst [(''States'', JStr ''  CA '')]) \<and>
   statesText [(''States'', JStr ''  CA '')] = Inr ''  CA '' \<and>
   trim ''  CA '' = ''CA'' \<and>
   (\<exists>before after. ''  CA '' = joinStr '', '' (before @ ''  CA '' # after))"
proof -
  let ?row = "[(''States'', JStr ''  CA '')]"
  have h1: "distinct (map fst ?row)" by simp
  have h2: "statesText ?row = Inr ''  CA ''"
    by (simp add: statesText_def keys_def isStateField_def getProp_def join_def trim_def isWhitespace_def)
  have h3: "(''States'', JStr ''  CA '') \<in> set ?row" by simp
  have h4: "includesStr ''States'' ''States''" by simp
  have h5: "trim ''  CA '' = ''CA''" by (simp add: trim_def isWhitespace_def)
  then have h5': "trim ''  CA '' \<noteq> []" by simp
  from kept_state_value_untrimmed[OF h1 h2 h3 h4 h5'] h1 h2 h5 show ?thesis by blast
qed






section \<open>Fields that cannot be located; determinism of the fill\<close>





lemma pdfdoc_same_fields:
  fixes d1 :: "'p pdfdoc" and d2 :: "'q pdfdoc"
  shows "formFields d1 = formFields d2 \<Longrightarrow> d2 = \<lparr>pages = pages d2, formFields = formFields d1\<rparr>"
  by simp

lemma getTextField_pages:
  "getTextField \<lparr>pages = ps, formFields = formFields d\<rparr> p = getTextField d p"
  by (simp add: getTextField_def)

lemma setText_pages:
  "setText \<lparr>pages = ps, formFields = formFields d\<rparr> p t =
     \<lparr>pages = ps, formFields = formFields (setText d p t)\<rparr>"
  by (simp add: setText_def)

lemma fillField_pages:
  "fillField \<lparr>pages = ps, formFields = formFields d\<rparr> p t w =
     (\<lparr>pages = ps, formFields = formFields (fst (fillField d p t w))\<rparr>, snd (fillField d p t w))"
  by (cases "getTextField d p")
     (simp_all add: fillField_def getTextField_pages setText_pages)

lemma fillMappedFields_pages:
  "fillMappedFields rowData ms \<lparr>pages = ps, formFields = formFields d\<rparr> =
     (\<lparr>pages = ps, formFields = formFields (fst (fillMappedFields rowData ms d))\<rparr>,
      snd (fillMappedFields rowData ms d))"
proof (induction ms arbitrary: d)
  case Nil
  then show ?case by simp
next
  case (Cons m ms)
  obtain c p where "m = (c, p)" by (cases m)
  with Cons show ?case
    by (simp add: fillMappedFields_Cons fillField_pages del: fillMappedFields.simps)
qed

lemma fillForm_pages:
  "fillForm \<lparr>pages = ps, formFields = formFields d\<rparr> rowData =
     (fst (fillForm d rowData),
      map_sum id (\<lambda>x. \<lparr>pages = ps, formFields = formFields x\<rparr>) (snd (fillForm d rowData)))"
  by (cases "statesText rowData")
     (simp_all add: fillForm_ok fillForm_throws fillMappedFields_pages fillField_pages)

text \<open>
  Claim C6. The fill is a function of the template and the row, so two runs on the
  same template and row give the same result. More is true: the warnings and the
  field values after the fill depend on the row and on the form fields of the
  decoded template only; two decodings that agree on the form fields (whatever their
  pages) end with identical field values.
\<close>

theorem fill_field_values_deterministic:
  assumes "formFields d1 = formFields d2"
  shows "fst (fillForm d1 rowData) = fst (fillForm d2 rowData) \<and>
         map_sum id formFields (snd (fillForm d1 rowData)) =
         map_sum id formFields (snd (fillForm d2 rowData))"
proof -
  from assms have "d2 = \<lparr>pages = pages d2, formFields = formFields d1\<rparr>"
    by (rule pdfdoc_same_fields)
  then have "fillForm d2 rowData =
     (fst (fillForm d1 rowData),
      map_sum id (\<lambda>x. \<lparr>pages = pages d2, formFields = formFields x\<rparr>) (snd (fillForm d1 rowData)))"
    using fillForm_pages[of "pages d2" d1 rowData] by simp
  then show ?thesis
    by (cases "snd (fillForm d1 rowData)") simp_all
qed

theorem fill_field_values_deterministic_witness:
  "formFields \<lparr>pages = [1::nat], formFields = [(''Client'', TextField ''old'')]\<rparr> =
   formFields \<lparr>pages = [2::nat, 3], formFields = [(''Client'', TextField ''old'')]\<rparr> \<and>
   map_sum id formFields
     (snd (fillForm \<lparr>pages = [1::nat], formFields = [(''Client'', TextField ''old'')]\<rparr>
             [(''Client'', JStr ''Acme'')])) =
   map_sum id formFields
     (snd (fillForm \<lparr>pages = [2::nat, 3], formFields = [(''Client'', TextField ''old'')]\<rparr>
             [(''Client'', JStr ''Acme'')])) \<and>
   map_sum id formFields
     (snd (fillForm \<lparr>pages = [1::nat], formFields = [(''Client'', TextField ''old'')]\<rparr>
             [(''Client'', JStr ''Acme'')])) = Inr [(''Client'', TextField ''Acme'')]"
proof -
  let ?d1 = "\<lparr>pages = [1::nat], formFields = [(''Client'', TextField ''old'')]\<rparr>"
  let ?d2 = "\<lparr>pages = [2::nat, 3], formFields = [(''Client'', TextField ''old'')]\<rparr>"
  have h: "formFields ?d1 = formFields ?d2" by simp
  have v: "map_sum id formFields (snd (fillForm ?d1 [(''Client'', JStr ''Acme'')])) =
             Inr [(''Client'', TextField ''Acme'')]"
    by (simp add: fillForm_def statesText_def keys_def isStateField_def getProp_def join_def
          fieldMappings_def fillField_def getTextField_def setText_def mappedText_def orEmpty_def
          split_beta)
  from fill_field_values_deterministic[OF h, of "[(''Client'', JStr ''Acme'')]"] h v
  show ?thesis by simp
qed

section \<open>The batch\<close>

lemma copyPages_all: "copyPages d (getPageIndices d) = pages d"
  by (simp add: copyPages_def getPageIndices_def map_nth)

lemma foldl_addPage: "foldl addPage d ps = d\<lparr>pages := pages d @ ps\<rparr>"
  by (induction ps arbitrary: d) (simp_all add: addPage_def)

lemma processRows_ok:
  assumes "rowPages lib tpl rowData = Inr ps"
  shows "processRows lib tpl m s (rowData # rest) =
           processRows lib tpl (m\<lparr>pages := pages m @ ps\<rparr>)
             (s\<lparr>console := console s @ fst (fillPdfForm lib tpl rowData),
                processedCount := processedCount s + 1\<rparr>) rest"
  using assms
  by (auto simp: rowPages_def copyPages_all foldl_addPage Let_def split: sum.splits prod.splits)

lemma processRows_fails:
  assumes "rowPages lib tpl rowData = Inl e"
  shows "processRows lib tpl m s (rowData # rest) =
           (s\<lparr>console := console s @ fst (fillPdfForm lib tpl rowData)\<rparr>, Inl e)"
  using assms
  by (auto simp: rowPages_def Let_def split: sum.splits prod.splits)

lemma processRows_append:
  "processRows lib tpl m s (xs @ ys) =
     (case processRows lib tpl m s xs of
        (s1, Inl e) \<Rightarrow> (s1, Inl e)
      | (s1, Inr m1) \<Rightarrow> processRows lib tpl m1 s1 ys)"
proof (induction xs arbitrary: m s)
  case Nil
  then show ?case by simp
next
  case (Cons x xs)
  show ?case
  proof (cases "rowPages lib tpl x")
    case (Inl e)
    then show ?thesis by (simp add: processRows_fails del: processRows.simps)
  next
    case (Inr ps)
    then show ?thesis by (simp add: processRows_ok Cons.IH del: processRows.simps)
  qed
qed

lemma processRows_all_ok:
  assumes "list_all2 (\<lambda>rowData ps. rowPages lib tpl rowData = Inr ps) rows pss"
  shows "\<exists>s'. processRows lib tpl m s rows = (s', Inr (m\<lparr>pages := pages m @ concat pss\<rparr>)) \<and>
              processedCount s' = processedCount s + length rows \<and>
              processing s' = processing s \<and> error s' = error s \<and>
              completedPdf s' = completedPdf s \<and> templatePdf s' = templatePdf s"
  using assms
proof (induction rows pss arbitrary: m s rule: list_all2_induct)
  case Nil
  then show ?case by simp
next
  case (Cons r rows ps pss)
  from Cons.IH[of "m\<lparr>pages := pages m @ ps\<rparr>"
      "s\<lparr>console := console s @ fst (fillPdfForm lib tpl r), processedCount := processedCount s + 1\<rparr>"]
  show ?case using Cons.hyps(1)
    by (auto simp: processRows_ok simp del: processRows.simps)
qed


lemma processCsvData_loaded:
  assumes "templatePdf s = Some tpl"
  shows "processCsvData lib s csvData =
     (case processRows lib tpl createDoc
             (s\<lparr>processing := True, error := None, completedPdf := None, processedCount := 0\<rparr>) csvData of
        (s1, Inl err) \<Rightarrow> catchError s1 err
      | (s1, Inr mergedPdf) \<Rightarrow>
          (case save lib mergedPdf of
             Inl err \<Rightarrow> catchError s1 err
           | Inr mergedPdfBytes \<Rightarrow> s1\<lparr>completedPdf := Some mergedPdfBytes, processing := False\<rparr>))"
  using assms by (simp add: processCsvData_def)

text \<open>
  Claim C4. With the template loaded, if every row of the input processes
  successfully, the row at position \<open>k\<close> contributing the pages \<open>pss ! k\<close>, then the
  document the loop hands to \<open>save\<close> has the pages \<open>concat pss\<close>: each row's pages in
  their order, rows in input order, nothing dropped or merged; their number is the sum
  of the rows' page counts; and when \<open>save\<close> succeeds its bytes are the completed PDF and
  the count is the number of rows.
\<close>

theorem merged_pages_in_row_order:
  assumes "templatePdf s = Some tpl"
    and "list_all2 (\<lambda>rowData ps. rowPages lib tpl rowData = Inr ps) rows pss"
  shows "(\<forall>s0. snd (processRows lib tpl createDoc s0 rows) = Inr \<lparr>pages = concat pss, formFields = []\<rparr>) \<and>
         length (concat pss) = sum_list (map length pss) \<and>
         (\<forall>bytes. save lib \<lparr>pages = concat pss, formFields = []\<rparr> = Inr bytes \<longrightarrow>
            completedPdf (processCsvData lib s rows) = Some bytes \<and>
            error (processCsvData lib s rows) = None \<and>
            processedCount (processCsvData lib s rows) = length rows)"
proof (intro conjI allI impI)
  fix s0 :: "'a app"
  from processRows_all_ok[OF assms(2), of createDoc s0]
  show "snd (processRows lib tpl createDoc s0 rows) = Inr \<lparr>pages = concat pss, formFields = []\<rparr>"
    by (auto simp: createDoc_def)
next
  show "length (concat pss) = sum_list (map length pss)"
    by (rule length_concat)
next
  fix bytes assume sv: "save lib \<lparr>pages = concat pss, formFields = []\<rparr> = Inr bytes"
  let ?s0 = "s\<lparr>processing := True, error := None, completedPdf := None, processedCount := 0\<rparr>"
  from processRows_all_ok[OF assms(2), of createDoc ?s0]
  obtain s' where run: "processRows lib tpl createDoc ?s0 rows = (s', Inr \<lparr>pages = concat pss, formFields = []\<rparr>)"
    and s': "processedCount s' = length rows" "error s' = None"
    by (auto simp: createDoc_def)
  have "processCsvData lib s rows = s'\<lparr>completedPdf := Some bytes, processing := False\<rparr>"
    by (simp add: processCsvData_loaded[OF assms(1)] run sv)
  with s' show "completedPdf (processCsvData lib s rows) = Some bytes"
    and "error (processCsvData lib s rows) = None"
    and "processedCount (processCsvData lib s rows) = length rows"
    by simp_all
qed

text \<open>
  Claim C3. With the template loaded, if the rows \<open>before\<close> process successfully and
  the next row, at position \<open>i = length before + 1\<close>, fails, then the completed PDF stays
  unset, the progress count is \<open>length before = i - 1\<close>, the error is reported, and the
  final state is the same whatever rows follow: they are never processed.
\<close>

theorem abort_on_first_failure:
  assumes "templatePdf s = Some tpl"
    and "list_all2 (\<lambda>rowData ps. rowPages lib tpl rowData = Inr ps) before pss"
    and "rowPages lib tpl rowData = Inl e"
  shows "completedPdf (processCsvData lib s (before @ rowData # after)) = None \<and>
         processedCount (processCsvData lib s (before @ rowData # after)) = length before \<and>
         error (processCsvData lib s (before @ rowData # after)) =
           Some (''Failed to process CSV data: '' @ message e) \<and>
         processing (processCsvData lib s (before @ rowData # after)) = False \<and>
         processCsvData lib s (before @ rowData # after) = processCsvData lib s (before @ [rowData])"
proof -
  let ?s0 = "s\<lparr>processing := True, error := None, completedPdf := None, processedCount := 0\<rparr>"
  from processRows_all_ok[OF assms(2), of createDoc ?s0]
  obtain s' where run: "processRows lib tpl createDoc ?s0 before =
        (s', Inr (createDoc\<lparr>pages := pages createDoc @ concat pss\<rparr>))"
    and s': "processedCount s' = length before" "completedPdf s' = None"
    by auto
  have stop: "processRows lib tpl createDoc ?s0 (before @ rowData # rest) =
                (s'\<lparr>console := console s' @ fst (fillPdfForm lib tpl rowData)\<rparr>, Inl e)" for rest
    by (simp add: processRows_append run processRows_fails[OF assms(3)] del: processRows.simps)
  have res: "processCsvData lib s (before @ rowData # rest) =
               catchError (s'\<lparr>console := console s' @ fst (fillPdfForm lib tpl rowData)\<rparr>) e" for rest
    by (simp add: processCsvData_loaded[OF assms(1)] stop)
  show ?thesis
    using s' by (simp add: res catchError_def)
qed



text \<open>
  Claim C8. When one CSV file is dropped and read, and parsing reports an error
  (a non-empty \<open>results.errors\<close>, or the \<open>error\<close> callback), \<open>onDrop\<close> only sets the error
  message: \<open>processCsvData\<close> is not called, so the completed PDF, the progress count,
  the processing flag and the console are as before.
\<close>

theorem parse_error_surfaces_before_rows:
  assumes "acceptedFiles = [dropped]"
    and "fileType dropped = ''text/csv'' \<or> suffix ''.csv'' (fileName dropped)"
    and "fileText dropped = Some csvText"
    and "parse csvText = Complete results \<and> parseErrors results \<noteq> [] \<and>
           msg = errorMessage (hd (parseErrors results)) \<or>
         parse csvText = ParseFailed err \<and> msg = message err"
  shows "onDrop lib parse s acceptedFiles = s\<lparr>error := Some (''Error parsing CSV: '' @ msg)\<rparr> \<and>
         completedPdf (onDrop lib parse s acceptedFiles) = completedPdf s \<and>
         processedCount (onDrop lib parse s acceptedFiles) = processedCount s \<and>
         processing (onDrop lib parse s acceptedFiles) = processing s \<and>
         console (onDrop lib parse s acceptedFiles) = console s"
proof -
  have "onDrop lib parse s acceptedFiles = s\<lparr>error := Some (''Error parsing CSV: '' @ msg)\<rparr>"
    using assms by (auto simp: onDrop_def onComplete_def setError_def)
  then show ?thesis by simp
qed

lemma exampleRow_ok:
  "rowPages exampleLib exampleTemplate [(''Client'', JStr c), (''States'', JStr ''CA'')] = Inr [7]"
  by (simp add: rowPages_def fillPdfForm_def exampleLib_def exampleTemplate_def fillForm_def
        statesText_def keys_def isStateField_def getProp_def join_def trim_def isWhitespace_def
        fieldMappings_def fillField_def getTextField_def setText_def split_beta)

lemma exampleRow_fails:
  "rowPages exampleLib exampleTemplate [(''Client'', JStr c), (''States'', JNum 5)] =
     Inl (Error ''Error filling PDF form: rowData[key].trim is not a function'')"
  by (simp add: rowPages_def fillPdfForm_def exampleLib_def exampleTemplate_def fillForm_def
        statesText_def keys_def isStateField_def getProp_def join_def
        fieldMappings_def fillField_def getTextField_def setText_def split_beta)

theorem merged_pages_in_row_order_witness:
  "templatePdf exampleState = Some exampleTemplate \<and>
   list_all2 (\<lambda>rowData ps. rowPages exampleLib exampleTemplate rowData = Inr ps)
     [[(''Client'', JStr ''Acme''), (''States'', JStr ''CA'')],
      [(''Client'', JStr ''Globex''), (''States'', JStr ''CA'')]] [[7], [7]] \<and>
   completedPdf (processCsvData exampleLib exampleState
     [[(''Client'', JStr ''Acme''), (''States'', JStr ''CA'')],
      [(''Client'', JStr ''Globex''), (''States'', JStr ''CA'')]]) = Some \<lparr>pages = [7, 7], formFields = []\<rparr> \<and>
   processedCount (processCsvData exampleLib exampleState
     [[(''Client'', JStr ''Acme''), (''States'', JStr ''CA'')],
      [(''Client'', JStr ''Globex''), (''States'', JStr ''CA'')]]) = 2"
proof -
  let ?rows = "[[(''Client'', JStr ''Acme''), (''States'', JStr ''CA'')],
                [(''Client'', JStr ''Globex''), (''States'', JStr ''CA'')]]"
  have h1: "templatePdf exampleState = Some exampleTemplate"
    by (simp add: exampleState_def)
  have h2: "list_all2 (\<lambda>rowData ps. rowPages exampleLib exampleTemplate rowData = Inr ps) ?rows [[7], [7]]"
    by (simp add: exampleRow_ok)
  have sv: "save exampleLib \<lparr>pages = concat [[7], [7]], formFields = []\<rparr> =
              Inr \<lparr>pages = [7, 7], formFields = []\<rparr>"
    by (simp add: exampleLib_def)
  from merged_pages_in_row_order[OF h1 h2] sv
  have "completedPdf (processCsvData exampleLib exampleState ?rows) = Some \<lparr>pages = [7, 7], formFields = []\<rparr>"
    and "processedCount (processCsvData exampleLib exampleState ?rows) = 2"
    by auto
  with h1 h2 show ?thesis by blast
qed

theorem abort_on_first_failure_witness:
  "templatePdf exampleState = Some exampleTemplate \<and>
   list_all2 (\<lambda>rowData ps. rowPages exampleLib exampleTemplate rowData = Inr ps)
     [[(''Client'', JStr ''Acme''), (''States'', JStr ''CA'')]] [[7]] \<and>
   rowPages exampleLib exampleTemplate [(''Client'', JStr ''Globex''), (''States'', JNum 5)] =
     Inl (Error ''Error filling PDF form: rowData[key].trim is not a function'') \<and>
   completedPdf (processCsvData exampleLib exampleState
     ([[(''Client'', JStr ''Acme''), (''States'', JStr ''CA'')]] @
      [(''Client'', JStr ''Globex''), (''States'', JNum 5)] #
      [[(''Client'', JStr ''Initech''), (''States'', JStr ''CA'')]])) = None \<and>
   processedCount (processCsvData exampleLib exampleState
     ([[(''Client'', JStr ''Acme''), (''States'', JStr ''CA'')]] @
      [(''Client'', JStr ''Globex''), (''States'', JNum 5)] #
      [[(''Client'', JStr ''Initech''), (''States'', JStr ''CA'')]])) = 1"
proof -
  let ?before = "[[(''Client'', JStr ''Acme''), (''States'', JStr ''CA'')]]"
  let ?row = "[(''Client'', JStr ''Globex''), (''States'', JNum 5)]"
  let ?after = "[[(''Client'', JStr ''Initech''), (''States'', JStr ''CA'')]]"
  have h1: "templatePdf exampleState = Some exampleTemplate"
    by (simp add: exampleState_def)
  have h2: "list_all2 (\<lambda>rowData ps. rowPages exampleLib exampleTemplate rowData = Inr ps) ?before [[7]]"
    by (simp add: exampleRow_ok)
  have h3: "rowPages exampleLib exampleTemplate ?row =
              Inl (Error ''Error filling PDF form: rowData[key].trim is not a function'')"
    by (rule exampleRow_fails)
  note r = abort_on_first_failure[OF h1 h2 h3, of ?after]
  from r have a: "completedPdf (processCsvData exampleLib exampleState (?before @ ?row # ?after)) = None"
    by blast
  from r have b: "processedCount (processCsvData exampleLib exampleState (?before @ ?row # ?after)) =
                    length ?before"
    by blast
  from a b h1 h2 h3 show ?thesis by simp
qed


theorem parse_error_surfaces_before_rows_witness:
  "fileText \<lparr>fileName = ''clients.csv'', fileType = ''text/csv'', fileText = Some ''Client''\<rparr> =
     Some ''Client'' \<and>
   onDrop exampleLib
     (\<lambda>text. Complete \<lparr>parsedData = [[(''Client'', JStr ''Acme'')]],
                        parseErrors = [\<lparr>errorMessage = ''Too few fields''\<rparr>]\<rparr>)
     exampleState
     [\<lparr>fileName = ''clients.csv'', fileType = ''text/csv'', fileText = Some ''Client''\<rparr>] =
   exampleState\<lparr>error := Some ''Error parsing CSV: Too few fields''\<rparr>"
proof -
  let ?file = "\<lparr>fileName = ''clients.csv'', fileType = ''text/csv'', fileText = Some ''Client''\<rparr>"
  let ?results = "\<lparr>parsedData = [[(''Client'', JStr ''Acme'')]],
                   parseErrors = [\<lparr>errorMessage = ''Too few fields''\<rparr>]\<rparr>"
  let ?parse = "\<lambda>text :: string. Complete ?results"
  have h2: "fileType ?file = ''text/csv'' \<or> suffix ''.csv'' (fileName ?file)" by simp
  have h3: "fileText ?file = Some ''Client''" by simp
  have h4: "?parse ''Client'' = Complete ?results \<and> parseErrors ?results \<noteq> [] \<and>
              ''Too few fields'' = errorMessage (hd (parseErrors ?results)) \<or>
            ?parse ''Client'' = ParseFailed (Error []) \<and> ''Too few fields'' = message (Error [])"
    by simp
  note r = parse_error_surfaces_before_rows[where acceptedFiles = "[?file]" and dropped = ?file
      and csvText = "''Client''" and parse = ?parse and results = ?results
      and msg = "''Too few fields''" and err = "Error []" and lib = exampleLib
      and s = exampleState, OF refl h2 h3 h4]
  from r have "onDrop exampleLib ?parse exampleState [?file] =
                 exampleState\<lparr>error := Some (''Error parsing CSV: '' @ ''Too few fields'')\<rparr>"
    by blast
  with h3 show ?thesis by simp
qed

end
